theory Spec2Isabelle
  imports Complex_Main "HOL-Library.Word" "HOL-Library.Sublist"
begin

unbundle bit_operations_syntax

section \<open>Email processing pipeline of \<open>src/code/src/app.py\<close>\<close>

text \<open>
  The embedding follows \<open>app.py\<close> function by function.  Python \<open>str\<close> values are
  modelled as \<^typ>\<open>string\<close>; a \<^typ>\<open>char\<close> stands for a code point below 256, so the texts
  covered are the Latin-1 ones.  The character classes of \<open>str.strip\<close>, \<open>str.lower\<close> and
  of the \<open>re\<close> module are the Unicode ones restricted to that range.

  What the program gets from outside (the HTTP answer of the classifier, the decoded
  text of a mail file) is a parameter of the model.  Exceptions are values of the type
  \<open>error\<close>, returned on the left of a sum.
\<close>

subsection \<open>Exceptions\<close>

datatype error =
    RequestException string
  | JSONDecodeError
  | AttributeError
  | IndexError
  | KeyError
  | TypeError
  | ValueError string
  | ImportError string
  | OSError string

subsection \<open>Taxonomy (lines 10--20)\<close>

definition REQUEST_TYPES :: "string list" where
  "REQUEST_TYPES =
     [''Adjustment'', ''AU Trasfer'', ''Closing Notice'', ''Commitment Change'',
      ''Fee Payment'', ''Money Movement Inbound'', ''Money Movement Outbound'']"

definition SUB_REQUEST_TYPES :: "(string \<times> string list) list" where
  "SUB_REQUEST_TYPES =
     [(''Closing Notice'', [''Reallocation Fees'', ''Amendment Fees'', ''Reallocation Principal'']),
      (''Commitment Change'', [''Cashless Roll'', ''Decrease'', ''Increase'']),
      (''Fee Payment'', [''Ongoing Fee'', ''Letter of Credit Fee'']),
      (''Money Movement Inbound'',
         [''Principal'', ''Interest'', ''Principal+Interest'', ''Principal+Interest+Fee'']),
      (''Money Movement Outbound'', [''Timebound'', ''Foreign Currency''])]"

subsection \<open>Strings\<close>

text \<open>\<open>str.isspace\<close> below 256: TAB..CR, FS..US, space, NEL and the no-break space.\<close>

definition is_space :: "char \<Rightarrow> bool" where
  "is_space c \<longleftrightarrow>
     c \<in> set [CHR 0x09, CHR 0x0A, CHR 0x0B, CHR 0x0C, CHR 0x0D, CHR 0x1C, CHR 0x1D,
              CHR 0x1E, CHR 0x1F, CHR 0x20, CHR 0x85, CHR 0xA0]"

text \<open>The class \<open>\d\<close> of a \<open>str\<close> pattern: the decimal digits, below 256 only \<open>0\<close>..\<open>9\<close>.\<close>

definition is_digit :: "char \<Rightarrow> bool" where
  "is_digit c \<longleftrightarrow> c \<in> set ''0123456789''"

text \<open>
  The class \<open>\w\<close> of a \<open>str\<close> pattern: alphanumeric code points and the underscore.
  Below 256 the alphanumerics are the ASCII letters and digits, the ordinal indicators,
  the micro sign, the superscript digits, the vulgar fractions and the accented letters
  (C0..FF without the multiplication and division signs).
\<close>

definition is_word :: "char \<Rightarrow> bool" where
  "is_word c \<longleftrightarrow>
     (let n = (of_char c :: nat) in
        (48 \<le> n \<and> n \<le> 57) \<or> (65 \<le> n \<and> n \<le> 90) \<or> (97 \<le> n \<and> n \<le> 122) \<or> n = 95 \<or>
        n = 170 \<or> n = 178 \<or> n = 179 \<or> n = 181 \<or> n = 185 \<or> n = 186 \<or>
        (188 \<le> n \<and> n \<le> 190) \<or> (192 \<le> n \<and> n \<le> 214) \<or> (216 \<le> n \<and> n \<le> 246) \<or>
        (248 \<le> n \<and> n \<le> 255))"

text \<open>\<open>s.strip()\<close>: leading and trailing whitespace removed.\<close>

definition strip :: "string \<Rightarrow> string" where
  "strip s = rev (dropWhile is_space (rev (dropWhile is_space s)))"

text \<open>\<open>s.split("\n")\<close>: the pieces between line feeds; the empty string gives one empty piece.\<close>

fun split_newline :: "string \<Rightarrow> string list" where
  "split_newline [] = [[]]"
| "split_newline (c # cs) =
     (if c = CHR 0x0A then [] # split_newline cs
      else (case split_newline cs of
              [] \<Rightarrow> [[c]]
            | l # ls \<Rightarrow> (c # l) # ls))"

text \<open>\<open>s.lower()\<close> below 256: \<open>A\<close>..\<open>Z\<close> and the accented capitals move up by 32.\<close>

definition lower_char :: "char \<Rightarrow> char" where
  "lower_char c =
     (let n = (of_char c :: nat) in
        if (65 \<le> n \<and> n \<le> 90) \<or> (192 \<le> n \<and> n \<le> 214) \<or> (216 \<le> n \<and> n \<le> 222)
        then char_of (n + 32) else c)"

definition lower :: "string \<Rightarrow> string" where
  "lower s = map lower_char s"

text \<open>\<open>str(n)\<close> for an integer: decimal digits, with a minus sign when negative.\<close>

definition digit_char :: "nat \<Rightarrow> char" where
  "digit_char n = ''0123456789'' ! (n mod 10)"

function str_nat :: "nat \<Rightarrow> string" where
  "str_nat n = (if n < 10 then [digit_char n] else str_nat (n div 10) @ [digit_char n])"
  by pat_completeness auto
termination
  by (relation "measure id") auto

declare str_nat.simps [simp del]

definition str_int :: "int \<Rightarrow> string" where
  "str_int i = (if i < 0 then CHR ''-'' # str_nat (nat (- i)) else str_nat (nat i))"

subsection \<open>SHA-256 (\<open>hashlib.sha256\<close>, FIPS 180-4)\<close>

type_synonym u32 = "32 word"

type_synonym sha_state = "u32 \<times> u32 \<times> u32 \<times> u32 \<times> u32 \<times> u32 \<times> u32 \<times> u32"

definition rotr :: "nat \<Rightarrow> u32 \<Rightarrow> u32" where
  "rotr n x = (drop_bit n x) OR (push_bit (32 - n) x)"

definition Ch :: "u32 \<Rightarrow> u32 \<Rightarrow> u32 \<Rightarrow> u32" where
  "Ch x y z = (x AND y) XOR (NOT x AND z)"

definition Maj :: "u32 \<Rightarrow> u32 \<Rightarrow> u32 \<Rightarrow> u32" where
  "Maj x y z = (x AND y) XOR (x AND z) XOR (y AND z)"

definition bsig0 :: "u32 \<Rightarrow> u32" where
  "bsig0 x = rotr 2 x XOR rotr 13 x XOR rotr 22 x"

definition bsig1 :: "u32 \<Rightarrow> u32" where
  "bsig1 x = rotr 6 x XOR rotr 11 x XOR rotr 25 x"

definition ssig0 :: "u32 \<Rightarrow> u32" where
  "ssig0 x = rotr 7 x XOR rotr 18 x XOR drop_bit 3 x"

definition ssig1 :: "u32 \<Rightarrow> u32" where
  "ssig1 x = rotr 17 x XOR rotr 19 x XOR drop_bit 10 x"

text \<open>
  The round constants and the initial hash value, as decimal numerals (in the standard:
  the first 32 bits of the fractional parts of the cube roots of the first 64 primes,
  and of the square roots of the first 8).
\<close>

definition sha256_K :: "u32 list" where
  "sha256_K =
    [1116352408, 1899447441, 3049323471, 3921009573, 961987163, 1508970993,
     2453635748, 2870763221, 3624381080, 310598401, 607225278, 1426881987,
     1925078388, 2162078206, 2614888103, 3248222580, 3835390401, 4022224774,
     264347078, 604807628, 770255983, 1249150122, 1555081692, 1996064986,
     2554220882, 2821834349, 2952996808, 3210313671, 3336571891, 3584528711,
     113926993, 338241895, 666307205, 773529912, 1294757372, 1396182291,
     1695183700, 1986661051, 2177026350, 2456956037, 2730485921, 2820302411,
     3259730800, 3345764771, 3516065817, 3600352804, 4094571909, 275423344,
     430227734, 506948616, 659060556, 883997877, 958139571, 1322822218,
     1537002063, 1747873779, 1955562222, 2024104815, 2227730452, 2361852424,
     2428436474, 2756734187, 3204031479, 3329325298]"

definition sha256_H0 :: sha_state where
  "sha256_H0 =
    (1779033703, 3144134277, 1013904242, 2773480762,
     1359893119, 2600822924, 528734635, 1541459225)"

text \<open>Padding: the byte 80, zero bytes up to 56 modulo 64, the bit length on 64 bits.\<close>

definition be_bytes64 :: "64 word \<Rightarrow> 8 word list" where
  "be_bytes64 n = map (\<lambda>i. ucast (drop_bit (8 * i) n)) (rev [0..<8])"

definition sha256_pad :: "8 word list \<Rightarrow> 8 word list" where
  "sha256_pad bs =
     (let l = length bs
      in bs @ [0x80] @ replicate ((119 - l mod 64) mod 64) 0 @ be_bytes64 (of_nat (8 * l)))"

fun be_words :: "8 word list \<Rightarrow> u32 list" where
  "be_words (a # b # c # d # bs) =
     (push_bit 24 (ucast a) OR push_bit 16 (ucast b) OR push_bit 8 (ucast c) OR ucast d) # be_words bs"
| "be_words _ = []"

fun schedule :: "nat \<Rightarrow> u32 list \<Rightarrow> u32 list" where
  "schedule 0 ws = ws"
| "schedule (Suc n) ws =
     (let i = length ws
      in schedule n (ws @ [ssig1 (ws ! (i - 2)) + ws ! (i - 7) + ssig0 (ws ! (i - 15)) + ws ! (i - 16)]))"

definition round256 :: "sha_state \<Rightarrow> (u32 \<times> u32) \<Rightarrow> sha_state" where
  "round256 st kw =
     (case st of (a, b, c, d, e, f, g, h) \<Rightarrow>
      (let t1 = h + bsig1 e + Ch e f g + fst kw + snd kw;
           t2 = bsig0 a + Maj a b c
       in (t1 + t2, a, b, c, d + t1, e, f, g)))"

definition add_state :: "sha_state \<Rightarrow> sha_state \<Rightarrow> sha_state" where
  "add_state s t =
     (case s of (a, b, c, d, e, f, g, h) \<Rightarrow>
      case t of (a', b', c', d', e', f', g', h') \<Rightarrow>
        (a + a', b + b', c + c', d + d', e + e', f + f', g + g', h + h'))"

definition compress :: "sha_state \<Rightarrow> u32 list \<Rightarrow> sha_state" where
  "compress hs block = add_state hs (foldl round256 hs (zip sha256_K (schedule 48 block)))"

function blocks :: "u32 list \<Rightarrow> u32 list list" where
  "blocks ws = (if ws = [] then [] else take 16 ws # blocks (drop 16 ws))"
  by pat_completeness auto
termination
  by (relation "measure length") auto

definition sha256 :: "8 word list \<Rightarrow> sha_state" where
  "sha256 bs = foldl compress sha256_H0 (blocks (be_words (sha256_pad bs)))"

definition hex_digit :: "nat \<Rightarrow> char" where
  "hex_digit n = ''0123456789abcdef'' ! (n mod 16)"

definition hex_word :: "u32 \<Rightarrow> string" where
  "hex_word w = map (\<lambda>i. hex_digit (unat (drop_bit (4 * i) w AND 0xF))) (rev [0..<8])"

definition hexdigest :: "sha_state \<Rightarrow> string" where
  "hexdigest st =
     (case st of (a, b, c, d, e, f, g, h) \<Rightarrow> concat (map hex_word [a, b, c, d, e, f, g, h]))"

text \<open>\<open>s.encode("utf-8")\<close> for code points below 256: one byte below 128, two bytes above.\<close>

definition utf8 :: "string \<Rightarrow> 8 word list" where
  "utf8 s = concat (map (\<lambda>c. let n = (of_char c :: 8 word) in
       if n < 0x80 then [n] else [0xC0 OR drop_bit 6 n, 0x80 OR (n AND 0x3F)]) s)"

subsection \<open>Duplicate detection (lines 23--36)\<close>

definition compute_email_hash :: "string \<Rightarrow> string" where
  "compute_email_hash email_text = hexdigest (sha256 (utf8 email_text))"

text \<open>
  \<open>email_hash_set\<close> is a global of the module: \<open>is_duplicate\<close> takes it and returns
  it, updated on the branch that adds the hash.
\<close>

definition is_duplicate :: "string \<Rightarrow> string set \<Rightarrow> (bool \<times> string) \<times> string set" where
  "is_duplicate email_text email_hash_set =
     (let email_hash = compute_email_hash email_text in
        if email_hash \<in> email_hash_set
        then ((True, ''Duplicate email detected (hash: '' @ email_hash @ '').''), email_hash_set)
        else ((False, ''''), insert email_hash email_hash_set))"

subsection \<open>Regular expressions (\<open>re.search\<close>)\<close>

text \<open>
  The four patterns of the program are built from literals, greedy repetitions of a
  character class, sequence and a greedy optional part.  \<open>rests r s\<close> lists, in the
  order in which the backtracking matcher of \<open>re\<close> tries them, the remainders of \<open>s\<close>
  after each way of matching \<open>r\<close> at the start of \<open>s\<close>: a greedy repetition tries the
  longest run first, an optional part is tried before it is skipped.
\<close>

datatype regex =
    Lit string
  | Rep "char \<Rightarrow> bool" nat "nat option"
  | Seq regex regex
  | Opt regex

fun rests :: "regex \<Rightarrow> string \<Rightarrow> string list" where
  "rests (Lit l) s = (if take (length l) s = l then [drop (length l) s] else [])"
| "rests (Rep p lo hi) s =
     (let n = length (takeWhile p s);
          m = (case hi of None \<Rightarrow> n | Some h \<Rightarrow> min n h)
      in map (\<lambda>k. drop k s) (rev [lo..<Suc m]))"
| "rests (Seq a b) s = concat (map (rests b) (rests a s))"
| "rests (Opt a) s = rests a s @ [s]"

text \<open>
  Every pattern of the program has the shape \<open>pre(grp)\<close>, a prefix followed by the one
  capturing group, which ends the pattern.  \<open>groups_at pre grp s\<close> lists the texts of
  group 1 for the matches starting at the beginning of \<open>s\<close>, in the matcher's order.
\<close>

definition group_texts :: "regex \<Rightarrow> string \<Rightarrow> string list" where
  "group_texts grp r = map (\<lambda>r'. take (length r - length r') r) (rests grp r)"

definition groups_at :: "regex \<Rightarrow> regex \<Rightarrow> string \<Rightarrow> string list" where
  "groups_at pre grp s = concat (map (group_texts grp) (rests pre s))"

text \<open>
  \<open>re.search\<close>: the first match at the leftmost position that has one; the result is
  \<open>match.group(1)\<close>, or \<open>None\<close> when nothing matches.
\<close>

fun re_search :: "regex \<Rightarrow> regex \<Rightarrow> string \<Rightarrow> string option" where
  "re_search pre grp [] = (case groups_at pre grp [] of [] \<Rightarrow> None | g # _ \<Rightarrow> Some g)"
| "re_search pre grp (c # cs) =
     (case groups_at pre grp (c # cs) of [] \<Rightarrow> re_search pre grp cs | g # _ \<Rightarrow> Some g)"

text \<open>\<open>Confidence:\s*([\d\.]+)\<close>\<close>

definition confidence_pre :: regex where
  "confidence_pre = Seq (Lit ''Confidence:'') (Rep is_space 0 None)"

definition numeral_class :: "char \<Rightarrow> bool" where
  "numeral_class c \<longleftrightarrow> is_digit c \<or> c = CHR ''.''"

definition confidence_grp :: regex where
  "confidence_grp = Rep numeral_class 1 None"

text \<open>\<open>Deal:\s*([\w\s\-]+)\<close>\<close>

definition deal_class :: "char \<Rightarrow> bool" where
  "deal_class c \<longleftrightarrow> is_word c \<or> is_space c \<or> c = CHR ''-''"

definition deal_pre :: regex where
  "deal_pre = Seq (Lit ''Deal:'') (Rep is_space 0 None)"

definition deal_grp :: regex where
  "deal_grp = Rep deal_class 1 None"

text \<open>\<open>\$\s*([\d,]+(?:\.\d{2})?)\<close>\<close>

definition amount_pre :: regex where
  "amount_pre = Seq (Lit ''$'') (Rep is_space 0 None)"

definition amount_grp :: regex where
  "amount_grp =
     Seq (Rep (\<lambda>c. is_digit c \<or> c = CHR '','') 1 None)
         (Opt (Seq (Lit ''.'') (Rep is_digit 2 (Some 2))))"

text \<open>\<open>(\d{1,2}/\d{1,2}/\d{4})\<close>\<close>

definition date_pre :: regex where
  "date_pre = Lit []"

definition date_grp :: regex where
  "date_grp =
     Seq (Rep is_digit 1 (Some 2))
    (Seq (Lit ''/'')
    (Seq (Rep is_digit 1 (Some 2))
    (Seq (Lit ''/'') (Rep is_digit 4 (Some 4)))))"

subsection \<open>Field extraction (lines 116--131)\<close>

text \<open>
  \<open>fields\<close> is a dict filled by three assignments; it is an association list in the
  order of insertion, with \<open>None\<close> for Python's \<open>None\<close>.
\<close>

type_synonym fields = "(string \<times> string option) list"

definition extract_fields :: "string \<Rightarrow> fields" where
  "extract_fields email_text =
     (let deal_match = re_search deal_pre deal_grp email_text;
          fields = [(''deal_name'', map_option strip deal_match)];
          amount_match = re_search amount_pre amount_grp email_text;
          fields = fields @ [(''amount'', amount_match)];
          date_match = re_search date_pre date_grp email_text;
          fields = fields @ [(''expiration_date'', date_match)]
      in fields)"

text \<open>\<open>fields[k]\<close> for a key that was assigned.\<close>

definition field :: "fields \<Rightarrow> string \<Rightarrow> string option" where
  "field fs k = (case map_of fs k of None \<Rightarrow> None | Some v \<Rightarrow> v)"

subsection \<open>The classifier's answer\<close>

text \<open>JSON values as \<open>response.json()\<close> returns them; an object is a dict with distinct keys.\<close>

datatype json =
    JNull
  | JBool bool
  | JNum rat
  | JStr string
  | JArr "json list"
  | JObj "(string \<times> json) list"

text \<open>
  What \<open>requests.post\<close> does: it raises, or it returns a response.  \<open>json_body\<close> is
  the value of \<open>response.json()\<close>, \<open>None\<close> when the body is not JSON and the call raises.
\<close>

record response =
  status_code :: int
  text' :: string
  json_body :: "json option"

datatype post_outcome = Raises error | Returns response

text \<open>\<open>d.get(key, default)\<close>; a value that is not a dict has no \<open>get\<close>.\<close>

fun py_get :: "json \<Rightarrow> string \<Rightarrow> json \<Rightarrow> error + json" where
  "py_get (JObj kvs) key dflt = Inr (case map_of kvs key of None \<Rightarrow> dflt | Some v \<Rightarrow> v)"
| "py_get _ key dflt = Inl AttributeError"

text \<open>\<open>v[0]\<close>: the first item of a list or string, no key \<open>0\<close> in a JSON object.\<close>

fun py_index0 :: "json \<Rightarrow> error + json" where
  "py_index0 (JArr []) = Inl IndexError"
| "py_index0 (JArr (x # xs)) = Inr x"
| "py_index0 (JStr []) = Inl IndexError"
| "py_index0 (JStr (c # cs)) = Inr (JStr [c])"
| "py_index0 (JObj kvs) = Inl KeyError"
| "py_index0 _ = Inl TypeError"

text \<open>Line 78: \<open>result.get("choices", [{}])[0].get("message", {}).get("content", "Unknown")\<close>.\<close>

definition response_content :: "json \<Rightarrow> error + json" where
  "response_content result =
     (case py_get result ''choices'' (JArr [JObj []]) of
        Inl e \<Rightarrow> Inl e
      | Inr choices \<Rightarrow>
     (case py_index0 choices of
        Inl e \<Rightarrow> Inl e
      | Inr choice \<Rightarrow>
     (case py_get choice ''message'' (JObj []) of
        Inl e \<Rightarrow> Inl e
      | Inr message \<Rightarrow> py_get message ''content'' (JStr ''Unknown''))))"

text \<open>
  \<open>float(s)\<close> for the text of the group \<open>[\d\.]+\<close>, a non-empty string of digits and
  dots: a \<open>ValueError\<close> (here \<open>None\<close>) unless there is a digit and at most one dot.  The
  value is the exact decimal; the rounding to a double is not modelled.
\<close>

definition digit_val :: "char \<Rightarrow> nat" where
  "digit_val c = of_char c - 48"

definition digits_val :: "string \<Rightarrow> nat" where
  "digits_val ds = foldl (\<lambda>a c. 10 * a + digit_val c) 0 ds"

definition py_float :: "string \<Rightarrow> rat option" where
  "py_float s =
     (let ip = takeWhile (\<lambda>c. c \<noteq> CHR ''.'') s;
          fp = drop 1 (dropWhile (\<lambda>c. c \<noteq> CHR ''.'') s)
      in if list_all is_digit ip \<and> list_all is_digit fp \<and> ip @ fp \<noteq> []
         then Some (of_nat (digits_val (ip @ fp)) / 10 ^ length fp)
         else None)"

record classification =
  primary_request :: string
  sub_request :: "string option"
  confidence :: "rat option"
  details :: string

text \<open>Line 80: the stripped non-blank lines of the answer.\<close>

definition response_lines :: "string \<Rightarrow> string list" where
  "response_lines response_text =
     map strip (filter (\<lambda>line. strip line \<noteq> []) (split_newline (strip response_text)))"

text \<open>Lines 80--106: the three-line parser, on the content string of a 200 answer.\<close>

definition parse_response_text :: "string \<Rightarrow> classification" where
  "parse_response_text response_text =
     (let lines = response_lines response_text;
          primary = (if length lines > 0 then lines ! 0 else ''Unknown'');
          sub = (if length lines > 1 \<and> lines ! 1 \<noteq> [] then Some (lines ! 1) else None);
          sub =
            (case sub of
               None \<Rightarrow> None
             | Some cand \<Rightarrow>
                 (case map_of SUB_REQUEST_TYPES primary of
                    None \<Rightarrow> None
                  | Some allowed \<Rightarrow> if cand \<in> set allowed then Some cand else None));
          conf =
            (if length lines > 2
             then (case re_search confidence_pre confidence_grp (lines ! 2) of
                     None \<Rightarrow> None
                   | Some g \<Rightarrow> py_float g)
             else None)
      in \<lparr>primary_request = primary, sub_request = sub, confidence = conf,
          details = ''DeepSeek R1 analysis confirms the classification.''\<rparr>)"

text \<open>The prompt of lines 55--67, the only part of the request that depends on the email.\<close>

fun join :: "string \<Rightarrow> string list \<Rightarrow> string" where
  "join sep [] = []"
| "join sep [x] = x"
| "join sep (x # y # ys) = x @ sep @ join sep (y # ys)"

definition prompt :: "string \<Rightarrow> string" where
  "prompt email_text =
     ''Analyze the following email and determine the primary request type from the predefined categories: ''
     @ join '', '' REQUEST_TYPES @ ''. Email text: '' @ email_text @ [CHR 0x0A]
     @ ''Return the result on three lines:'' @ [CHR 0x0A]
     @ ''First line: Primary Request Type'' @ [CHR 0x0A]
     @ ''Second line: Sub Request Type (if applicable; if not, leave blank).'' @ [CHR 0x0A]
     @ ''Third line: Confidence: <decimal number between 0 and 1>.''"

text \<open>
  Lines 39--113.  \<open>post\<close> stands for \<open>requests.post\<close> with the fixed URL, headers and
  model: it maps the prompt to what the call does.  The function has no handler, so
  an exception of \<open>requests.post\<close>, of \<open>response.json()\<close> or of the accessors of line 78
  leaves it.
\<close>

definition call_openrouter_deepseek :: "(string \<Rightarrow> post_outcome) \<Rightarrow> string \<Rightarrow> error + classification" where
  "call_openrouter_deepseek post email_text =
     (case post (prompt email_text) of
        Raises e \<Rightarrow> Inl e
      | Returns response \<Rightarrow>
          if status_code response = 200 then
            (case json_body response of
               None \<Rightarrow> Inl JSONDecodeError
             | Some result \<Rightarrow>
                 (case response_content result of
                    Inl e \<Rightarrow> Inl e
                  | Inr (JStr response_text) \<Rightarrow> Inr (parse_response_text response_text)
                  | Inr _ \<Rightarrow> Inl AttributeError))
          else
            Inr \<lparr>primary_request = ''Error'', sub_request = None, confidence = Some 0,
                 details = ''Error calling DeepSeek API: '' @ str_int (status_code response)
                           @ '' '' @ text' response\<rparr>)"

subsection \<open>End-to-end processing (lines 134--165)\<close>

record processing_result =
  duplicate :: bool
  duplicate_reason :: string
  classification :: classification
  extracted_fields :: fields
  attachments_extracted_fields :: "fields list"

text \<open>
  \<open>attachments\<close> defaults to \<open>None\<close>; \<open>None\<close> and the empty list are both false in
  \<open>if attachments\<close>.  The result comes with the hash set as \<open>is_duplicate\<close> left it,
  also when the classifier call raises afterwards.
\<close>

definition process_email ::
  "(string \<Rightarrow> post_outcome) \<Rightarrow> string \<Rightarrow> string list option \<Rightarrow> string set
     \<Rightarrow> (error + processing_result) \<times> string set" where
  "process_email post email_text attachments email_hash_set =
     (case is_duplicate email_text email_hash_set of
        ((duplicate_flag, reason), email_hash_set') \<Rightarrow>
     (case call_openrouter_deepseek post email_text of
        Inl e \<Rightarrow> (Inl e, email_hash_set')
      | Inr deepseek_result \<Rightarrow>
          (let main_fields = extract_fields email_text;
               attachment_results =
                 (case attachments of
                    None \<Rightarrow> []
                  | Some atts \<Rightarrow> if atts \<noteq> [] then map extract_fields atts else [])
           in (Inr \<lparr>duplicate = duplicate_flag, duplicate_reason = reason,
                    classification = deepseek_result, extracted_fields = main_fields,
                    attachments_extracted_fields = attachment_results\<rparr>,
               email_hash_set'))))"

subsection \<open>Mail files (lines 168--200)\<close>

text \<open>\<open>s.rfind(c)\<close>: the last index of \<open>c\<close>, \<open>-1\<close> when there is none.\<close>

definition rfind :: "char \<Rightarrow> string \<Rightarrow> int" where
  "rfind c s =
     (if c \<in> set s then int (length s) - 1 - int (length (takeWhile (\<lambda>x. x \<noteq> c) (rev s)))
      else - 1)"

text \<open>
  \<open>os.path.splitext\<close> on POSIX: the extension starts at the last dot of the last path
  component, unless only dots come before it in that component.
\<close>

definition splitext :: "string \<Rightarrow> string \<times> string" where
  "splitext p =
     (let sepIndex = rfind CHR ''/'' p;
          dotIndex = rfind CHR ''.'' p
      in if dotIndex > sepIndex \<and>
            list_ex (\<lambda>c. c \<noteq> CHR ''.'') (take (nat (dotIndex - (sepIndex + 1))) (drop (nat (sepIndex + 1)) p))
         then (take (nat dotIndex) p, drop (nat dotIndex) p)
         else (p, []))"

text \<open>
  \<open>read_eml\<close> and \<open>read_msg\<close> stand for the text extraction of lines 178--189
  (\<open>open\<close> and the \<open>email\<close> module) and of lines 191--196 (\<open>extract_msg\<close>): the text of
  the file at a path, or the exception raised on the way.
\<close>

definition process_email_file ::
  "(string \<Rightarrow> error + string) \<Rightarrow> (string \<Rightarrow> error + string) \<Rightarrow> (string \<Rightarrow> post_outcome)
     \<Rightarrow> string \<Rightarrow> string set \<Rightarrow> (error + processing_result) \<times> string set" where
  "process_email_file read_eml read_msg post file_path email_hash_set =
     (let ext = lower (snd (splitext file_path)) in
        if ext = ''.eml'' then
          (case read_eml file_path of
             Inl e \<Rightarrow> (Inl e, email_hash_set)
           | Inr email_text \<Rightarrow> process_email post email_text None email_hash_set)
        else if ext = ''.msg'' then
          (case read_msg file_path of
             Inl e \<Rightarrow> (Inl e, email_hash_set)
           | Inr email_text \<Rightarrow> process_email post email_text None email_hash_set)
        else
          (Inl (ValueError ''Unsupported file type. Only .eml and .msg files are supported.''),
           email_hash_set))"

subsection \<open>Classifier answers used as examples\<close>

text \<open>
  Three behaviours of \<open>requests.post\<close>, whatever the prompt: a 200 answer whose JSON body
  carries the given content at \<open>choices[0].message.content\<close>, an answer with a given
  status and body text that is not JSON, and a call that raises.
\<close>

definition answers_content :: "string \<Rightarrow> string \<Rightarrow> post_outcome" where
  "answers_content content p =
     Returns \<lparr>status_code = 200, text' = [],
       json_body = Some (JObj [(''choices'',
         JArr [JObj [(''message'', JObj [(''content'', JStr content)])]])])\<rparr>"

definition answers_status :: "int \<Rightarrow> string \<Rightarrow> string \<Rightarrow> post_outcome" where
  "answers_status code body p = Returns \<lparr>status_code = code, text' = body, json_body = None\<rparr>"

definition post_raises :: "error \<Rightarrow> string \<Rightarrow> post_outcome" where
  "post_raises e p = Raises e"

text \<open>Three lines joined by line feeds.\<close>

definition three_lines :: "string \<Rightarrow> string \<Rightarrow> string \<Rightarrow> string" where
  "three_lines a b c = a @ [CHR 0x0A] @ b @ [CHR 0x0A] @ c"

text \<open>A reader of mail files that finds the given text at every path.\<close>

definition reads_text :: "string \<Rightarrow> string \<Rightarrow> error + string" where
  "reads_text body path = Inr body"

subsection \<open>The extraction rules in words\<close>

text \<open>
  \<open>deal_name\<close> as the pattern \<open>Deal:\s*([\w\s\-]+)\<close> decides it, without the matcher:
  at the first \<open>Deal:\<close> that is followed by a character of the class (word character,
  whitespace or hyphen), the longest run of such characters after the label, stripped.
\<close>

fun deal_name_rule :: "string \<Rightarrow> string option" where
  "deal_name_rule [] = None"
| "deal_name_rule (c # cs) =
     (if take 5 (c # cs) = ''Deal:'' \<and> takeWhile deal_class (drop 5 (c # cs)) \<noteq> []
      then Some (strip (takeWhile deal_class (drop 5 (c # cs))))
      else deal_name_rule cs)"

text \<open>
  \<open>deal_name\<close> as the specification words it: the text after the first \<open>Deal:\<close>, as far
  as letters, digits, whitespace and hyphens go, stripped; \<open>None\<close> without the label.
\<close>

definition letter_digit_space_hyphen :: "char \<Rightarrow> bool" where
  "letter_digit_space_hyphen c \<longleftrightarrow> (is_word c \<and> c \<noteq> CHR ''_'') \<or> is_space c \<or> c = CHR ''-''"

fun deal_name_first_label :: "string \<Rightarrow> string option" where
  "deal_name_first_label [] = None"
| "deal_name_first_label (c # cs) =
     (if take 5 (c # cs) = ''Deal:''
      then Some (strip (takeWhile letter_digit_space_hyphen (drop 5 (c # cs))))
      else deal_name_first_label cs)"

text \<open>
  The numeral that \<open>Confidence:\s*([\d\.]+)\<close> finds in a line: at the first
  \<open>Confidence:\<close> that is followed, after optional whitespace, by a digit or a dot, the
  longest run of digits and dots there.
\<close>

fun confidence_numeral :: "string \<Rightarrow> string option" where
  "confidence_numeral [] = None"
| "confidence_numeral (c # cs) =
     (if take 11 (c # cs) = ''Confidence:''
         \<and> takeWhile numeral_class (dropWhile is_space (drop 11 (c # cs))) \<noteq> []
      then Some (takeWhile numeral_class (dropWhile is_space (drop 11 (c # cs))))
      else confidence_numeral cs)"

text \<open>
  A line as the classifier is asked to write it: not empty, without a line feed, and
  with no whitespace at either end.
\<close>

definition clean_line :: "string \<Rightarrow> bool" where
  "clean_line s \<longleftrightarrow> s \<noteq> [] \<and> CHR 0x0A \<notin> set s \<and> \<not> is_space (hd s) \<and> \<not> is_space (last s)"

section \<open>Properties\<close>

subsection \<open>Duplicate detection\<close>

text \<open>
  C3.  \<open>is_duplicate\<close> on a text whose hash is in the set answers true with the reason
  \<open>Duplicate email detected (hash: <hash>).\<close> and leaves the set as it is; otherwise it
  adds the hash and answers false with an empty reason.  So the second of two calls on
  the same text always answers true, with a reason that contains the hash, and changes
  nothing; the first answers false when the hash was not there before.
\<close>

theorem is_duplicate_twice:
  "is_duplicate t S =
     (if compute_email_hash t \<in> S
      then ((True, ''Duplicate email detected (hash: '' @ compute_email_hash t @ '').''), S)
      else ((False, []), insert (compute_email_hash t) S))
   \<and> (compute_email_hash t \<notin> S \<longrightarrow> fst (fst (is_duplicate t S)) = False)
   \<and> fst (is_duplicate t (snd (is_duplicate t S))) =
        (True, ''Duplicate email detected (hash: '' @ compute_email_hash t @ '').'')
   \<and> sublist (compute_email_hash t) (snd (fst (is_duplicate t (snd (is_duplicate t S)))))
   \<and> snd (is_duplicate t (snd (is_duplicate t S))) = snd (is_duplicate t S)"
proof -
  have s: "sublist (compute_email_hash t)
             (''Duplicate email detected (hash: '' @ compute_email_hash t @ '').'')"
    unfolding sublist_def by blast
  show ?thesis
    using s by (simp add: is_duplicate_def Let_def)
qed

theorem is_duplicate_twice_witness:
  "fst (is_duplicate ''Deal: X'' {}) = (False, [])
   \<and> fst (is_duplicate ''Deal: X'' (snd (is_duplicate ''Deal: X'' {}))) =
        (True, ''Duplicate email detected (hash: '' @ compute_email_hash ''Deal: X'' @ '').'')"
  using is_duplicate_twice [of "''Deal: X''" "{}"] by (simp add: is_duplicate_def Let_def)

subsection \<open>Field extraction\<close>

text \<open>
  C7.  For every text, \<open>extract_fields\<close> returns a dict whose keys are exactly
  \<open>deal_name\<close>, \<open>amount\<close> and \<open>expiration_date\<close>, in that order, each with a string or
  \<open>None\<close>.  The function is total: it has no failing branch.
\<close>

theorem extract_fields_keys:
  "map fst (extract_fields email_text) = [''deal_name'', ''amount'', ''expiration_date'']
   \<and> dom (map_of (extract_fields email_text)) = {''deal_name'', ''amount'', ''expiration_date''}"
  by (auto simp: extract_fields_def Let_def dom_def)

subsection \<open>Regular expressions: the literal at the start of a pattern\<close>

lemma groups_at_Lit_prefix:
  "groups_at (Seq (Lit l) a) grp s \<noteq> [] \<Longrightarrow> take (length l) s = l"
  by (auto simp: groups_at_def group_texts_def split: if_splits)

lemma re_search_Lit_sublist:
  "re_search (Seq (Lit l) a) grp s = Some g \<Longrightarrow> sublist l s"
proof (induction s)
  case Nil
  then have "groups_at (Seq (Lit l) a) grp [] \<noteq> []"
    by (auto split: list.splits)
  then have "take (length l) [] = l" by (rule groups_at_Lit_prefix)
  then show ?case by simp
next
  case (Cons c cs)
  show ?case
  proof (cases "groups_at (Seq (Lit l) a) grp (c # cs)")
    case Nil
    with Cons.prems have "re_search (Seq (Lit l) a) grp cs = Some g" by simp
    then have "sublist l cs" by (rule Cons.IH)
    then show ?thesis by (simp add: sublist_Cons_right)
  next
    case (Cons g' gs)
    then have "take (length l) (c # cs) = l"
      by (intro groups_at_Lit_prefix [of l a grp]) simp
    then have "prefix l (c # cs)"
      by (metis take_is_prefix)
    then show ?thesis by (rule prefix_imp_sublist)
  qed
qed

lemma deal_name_None:
  "\<not> sublist ''Deal:'' s \<Longrightarrow> field (extract_fields s) ''deal_name'' = None"
proof -
  assume n: "\<not> sublist ''Deal:'' s"
  have "re_search deal_pre deal_grp s = None"
  proof (cases "re_search deal_pre deal_grp s")
    case None then show ?thesis .
  next
    case (Some g)
    then have "sublist ''Deal:'' s"
      unfolding deal_pre_def by (rule re_search_Lit_sublist)
    with n show ?thesis by simp
  qed
  then show ?thesis
    by (simp add: extract_fields_def field_def Let_def)
qed

subsection \<open>Pipeline\<close>

lemma classify_Adjustment:
  "call_openrouter_deepseek (answers_content ''Adjustment'') t =
      Inr \<lparr>primary_request = ''Adjustment'', sub_request = None,
            confidence = None, details = ''DeepSeek R1 analysis confirms the classification.''\<rparr>"
  by code_simp

text \<open>
  C4.  Classification and field extraction do not depend on the duplicate check: for
  every text, attachments and hash set, \<open>process_email\<close> returns a result exactly when
  the classifier call returns one, whatever the set holds; the result then carries that
  classification and the fields of the text, also when the hash is already in the set
  and \<open>duplicate\<close> is true.
\<close>

theorem process_email_unconditional:
  "(case call_openrouter_deepseek post t of
      Inl e \<Rightarrow> fst (process_email post t atts S) = Inl e
    | Inr c \<Rightarrow>
        (\<exists>r. fst (process_email post t atts S) = Inr r
           \<and> duplicate r = (compute_email_hash t \<in> S)
           \<and> classification r = c
           \<and> extracted_fields r = extract_fields t))"
  by (simp add: process_email_def is_duplicate_def Let_def split: sum.splits)

theorem process_email_unconditional_witness:
  "\<exists>r. fst (process_email (answers_content ''Adjustment'') ''Deal: X'' None
              {compute_email_hash ''Deal: X''}) = Inr r
       \<and> duplicate r
       \<and> classification r = \<lparr>primary_request = ''Adjustment'', sub_request = None,
            confidence = None, details = ''DeepSeek R1 analysis confirms the classification.''\<rparr>
       \<and> extracted_fields r =
            [(''deal_name'', Some ''X''), (''amount'', None), (''expiration_date'', None)]"
proof -
  have f: "extract_fields ''Deal: X'' =
      [(''deal_name'', Some ''X''), (''amount'', None), (''expiration_date'', None)]"
    by code_simp
  show ?thesis
    using process_email_unconditional
      [of "answers_content ''Adjustment''" "''Deal: X''" None "{compute_email_hash ''Deal: X''}"]
    unfolding classify_Adjustment f by simp
qed

text \<open>
  C8.  Whenever \<open>process_email\<close> returns a result, \<open>attachments_extracted_fields\<close> is
  the list of \<open>extract_fields\<close> of the attachments, one entry each, in the order given;
  it is the empty list when there are no attachments.  With two attachments of which
  the second has no \<open>Deal:\<close> label, the list has length 2 and the \<open>deal_name\<close> of its
  second entry is \<open>None\<close>.
\<close>

theorem process_email_attachments:
  "fst (process_email post t atts S) = Inr r \<Longrightarrow>
     attachments_extracted_fields r =
       map extract_fields (case atts of None \<Rightarrow> [] | Some as \<Rightarrow> as)
     \<and> (atts = None \<or> atts = Some [] \<longrightarrow> attachments_extracted_fields r = [])
     \<and> (\<forall>a b. atts = Some [a, b] \<and> \<not> sublist ''Deal:'' b \<longrightarrow>
           length (attachments_extracted_fields r) = 2
           \<and> attachments_extracted_fields r ! 0 = extract_fields a
           \<and> field (attachments_extracted_fields r ! 1) ''deal_name'' = None)"
  by (auto simp: process_email_def is_duplicate_def Let_def deal_name_None
           split: sum.splits option.splits if_splits)

theorem process_email_attachments_witness:
  "\<exists>r. fst (process_email (answers_content ''Adjustment'') ''hello''
              (Some [''Deal: Falcon'', ''see above'']) {}) = Inr r
       \<and> length (attachments_extracted_fields r) = 2
       \<and> field (attachments_extracted_fields r ! 0) ''deal_name'' = Some ''Falcon''
       \<and> field (attachments_extracted_fields r ! 1) ''deal_name'' = None"
proof -
  obtain r where r: "fst (process_email (answers_content ''Adjustment'') ''hello''
              (Some [''Deal: Falcon'', ''see above'']) {}) = Inr r"
    by (simp add: process_email_def is_duplicate_def Let_def classify_Adjustment)
  have n: "\<not> sublist ''Deal:'' ''see above''"
    by (simp add: sublist_Cons_right)
  have f: "field (extract_fields ''Deal: Falcon'') ''deal_name'' = Some ''Falcon''"
    by code_simp
  from process_email_attachments [OF r] n f r show ?thesis
    by auto
qed

subsection \<open>The classifier call\<close>



text \<open>
  C1, as amended.  An answer of the classifier with a status other than 200 becomes the
  classification \<open>Error\<close>, with no sub-request, confidence 0.0 and the status and body in
  \<open>details\<close>, and \<open>process_email\<close> returns a result with it.  A call that raises is
  not recovered: the exception leaves \<open>call_openrouter_deepseek\<close> and \<open>process_email\<close>.
\<close>

theorem classifier_failure:
  "(post (prompt t) = Returns resp \<and> status_code resp \<noteq> 200 \<longrightarrow>
      call_openrouter_deepseek post t =
        Inr \<lparr>primary_request = ''Error'', sub_request = None, confidence = Some 0,
             details = ''Error calling DeepSeek API: '' @ str_int (status_code resp)
                       @ '' '' @ text' resp\<rparr>
      \<and> (\<exists>r. fst (process_email post t atts S) = Inr r
             \<and> classification r =
                 \<lparr>primary_request = ''Error'', sub_request = None, confidence = Some 0,
                  details = ''Error calling DeepSeek API: '' @ str_int (status_code resp)
                            @ '' '' @ text' resp\<rparr>))
   \<and> (post (prompt t) = Raises e \<longrightarrow>
        call_openrouter_deepseek post t = Inl e \<and> fst (process_email post t atts S) = Inl e)"
  by (simp add: call_openrouter_deepseek_def process_email_def is_duplicate_def Let_def)

theorem classifier_failure_witness:
  "call_openrouter_deepseek (answers_status 503 ''busy'') ''hello'' =
     Inr \<lparr>primary_request = ''Error'', sub_request = None, confidence = Some 0,
          details = ''Error calling DeepSeek API: 503 busy''\<rparr>
   \<and> fst (process_email (post_raises (RequestException ''timed out'')) ''hello'' None {}) =
       Inl (RequestException ''timed out'')"
proof -
  have s: "str_int 503 = ''503''" by code_simp
  have a: "answers_status 503 ''busy'' (prompt ''hello'') =
             Returns \<lparr>status_code = 503, text' = ''busy'', json_body = None\<rparr>"
    by (simp add: answers_status_def)
  have b: "post_raises (RequestException ''timed out'') (prompt ''hello'') =
             Raises (RequestException ''timed out'')"
    by (simp add: post_raises_def)
  from classifier_failure
         [of "answers_status 503 ''busy''" "''hello''"
             "\<lparr>status_code = 503, text' = ''busy'', json_body = None\<rparr>" None "{}"
             "RequestException ''timed out''"]
       a s
  have 1: "call_openrouter_deepseek (answers_status 503 ''busy'') ''hello'' =
     Inr \<lparr>primary_request = ''Error'', sub_request = None, confidence = Some 0,
          details = ''Error calling DeepSeek API: 503 busy''\<rparr>"
    by simp
  from classifier_failure
         [of "post_raises (RequestException ''timed out'')" "''hello''"
             "\<lparr>status_code = 503, text' = ''busy'', json_body = None\<rparr>" None "{}"
             "RequestException ''timed out''"]
       b
  have 2: "fst (process_email (post_raises (RequestException ''timed out'')) ''hello'' None {}) =
       Inl (RequestException ''timed out'')"
    by simp
  from 1 2 show ?thesis by simp
qed

text \<open>
  The claim C1 as stated fails: when \<open>requests.post\<close> raises (no network, a timeout),
  nothing catches the exception and no classification is returned.
\<close>

theorem classifier_failure_counterexample:
  "call_openrouter_deepseek (post_raises (RequestException ''timed out'')) ''hello'' =
     Inl (RequestException ''timed out'')
   \<and> fst (process_email (post_raises (RequestException ''timed out'')) ''hello'' None {}) =
       Inl (RequestException ''timed out'')"
  by (simp add: call_openrouter_deepseek_def process_email_def is_duplicate_def Let_def
                post_raises_def)





subsection \<open>Mail files\<close>

text \<open>
  C10.  \<open>process_email_file\<close> compares the lower-cased extension of the path: when it is
  \<open>.eml\<close> or \<open>.msg\<close> the text is read and processed, so \<open>.EML\<close> and \<open>.Msg\<close> are
  accepted; when it is anything else the result is the unsupported-file-type
  \<open>ValueError\<close>, whatever the readers and the classifier would do, and the hash set is
  untouched.
\<close>

theorem process_email_file_extension:
  "(lower (snd (splitext p)) \<noteq> ''.eml'' \<and> lower (snd (splitext p)) \<noteq> ''.msg'' \<longrightarrow>
      process_email_file read_eml read_msg post p S =
        (Inl (ValueError ''Unsupported file type. Only .eml and .msg files are supported.''), S))
   \<and> (lower (snd (splitext p)) = ''.eml'' \<longrightarrow>
        process_email_file read_eml read_msg post p S =
          (case read_eml p of Inl e \<Rightarrow> (Inl e, S)
           | Inr email_text \<Rightarrow> process_email post email_text None S))
   \<and> (lower (snd (splitext p)) = ''.msg'' \<longrightarrow>
        process_email_file read_eml read_msg post p S =
          (case read_msg p of Inl e \<Rightarrow> (Inl e, S)
           | Inr email_text \<Rightarrow> process_email post email_text None S))
   \<and> lower (snd (splitext ''inbox/mail.EML'')) = ''.eml''
   \<and> lower (snd (splitext ''inbox/mail.Msg'')) = ''.msg''"
proof -
  have 1: "lower (snd (splitext ''inbox/mail.EML'')) = ''.eml''" by code_simp
  have 2: "lower (snd (splitext ''inbox/mail.Msg'')) = ''.msg''" by code_simp
  show ?thesis
    by (simp add: process_email_file_def Let_def 1 2)
qed

theorem process_email_file_extension_witness:
  "process_email_file (reads_text ''Deal: X'') (reads_text ''Deal: X'')
       (answers_content ''Adjustment'') ''notes/report.pdf'' {} =
     (Inl (ValueError ''Unsupported file type. Only .eml and .msg files are supported.''), {})
   \<and> process_email_file (reads_text ''Deal: X'') (reads_text ''Deal: X'')
       (answers_content ''Adjustment'') ''inbox/mail.EML'' {} =
     process_email (answers_content ''Adjustment'') ''Deal: X'' None {}
   \<and> process_email_file (reads_text ''Deal: X'') (reads_text ''Deal: X'')
       (answers_content ''Adjustment'') ''inbox/mail.Msg'' {} =
     process_email (answers_content ''Adjustment'') ''Deal: X'' None {}"
proof -
  have p: "lower (snd (splitext ''notes/report.pdf'')) = ''.pdf''" by code_simp
  have 1: "process_email_file (reads_text ''Deal: X'') (reads_text ''Deal: X'')
       (answers_content ''Adjustment'') ''notes/report.pdf'' {} =
     (Inl (ValueError ''Unsupported file type. Only .eml and .msg files are supported.''), {})"
    using process_email_file_extension
      [of "''notes/report.pdf''" "reads_text ''Deal: X''" "reads_text ''Deal: X''"
          "answers_content ''Adjustment''" "{}"]
    by (simp add: p)
  have 2: "process_email_file (reads_text ''Deal: X'') (reads_text ''Deal: X'')
       (answers_content ''Adjustment'') ''inbox/mail.EML'' {} =
     process_email (answers_content ''Adjustment'') ''Deal: X'' None {}"
    using process_email_file_extension
      [of "''inbox/mail.EML''" "reads_text ''Deal: X''" "reads_text ''Deal: X''"
          "answers_content ''Adjustment''" "{}"]
    by (simp add: reads_text_def)
  have 3: "process_email_file (reads_text ''Deal: X'') (reads_text ''Deal: X'')
       (answers_content ''Adjustment'') ''inbox/mail.Msg'' {} =
     process_email (answers_content ''Adjustment'') ''Deal: X'' None {}"
    using process_email_file_extension
      [of "''inbox/mail.Msg''" "reads_text ''Deal: X''" "reads_text ''Deal: X''"
          "answers_content ''Adjustment''" "{}"]
    by (simp add: reads_text_def)
  from 1 2 3 show ?thesis by blast
qed

subsection \<open>Regular expressions: label, whitespace, then a run of a class\<close>

lemma upt_Suc_Suc_shift: "[0..<Suc (Suc n)] = 0 # map Suc [0..<Suc n]"
  by (simp only: map_Suc_upt upt_conv_Cons [of 0 "Suc (Suc n)"] zero_less_Suc)

lemma rests_space_Cons:
  assumes "is_space c"
  shows "rests (Rep is_space 0 None) (c # t) = rests (Rep is_space 0 None) t @ [c # t]"
proof -
  let ?n = "length (takeWhile is_space t)"
  have "rests (Rep is_space 0 None) (c # t) = map (\<lambda>k. drop k (c # t)) (rev [0..<Suc (Suc ?n)])"
    using assms by (simp add: Let_def del: upt_Suc)
  also have "\<dots> = map (\<lambda>k. drop k (c # t)) (rev (map Suc [0..<Suc ?n])) @ [c # t]"
    by (simp only: upt_Suc_Suc_shift) simp
  also have "map (\<lambda>k. drop k (c # t)) (rev (map Suc [0..<Suc ?n]))
               = map (\<lambda>k. drop k t) (rev [0..<Suc ?n])"
    by (simp only: rev_map map_map o_def drop_Suc_Cons)
  finally show ?thesis by (simp add: Let_def del: upt_Suc)
qed

lemma rests_space_no: "s = [] \<or> \<not> is_space (hd s) \<Longrightarrow> rests (Rep is_space 0 None) s = [s]"
  by (cases s) (auto simp: Let_def)

lemma group_texts_run_Nil:
  "takeWhile p r = [] \<Longrightarrow> group_texts (Rep p (Suc 0) None) r = []"
  by (simp add: group_texts_def Let_def)

lemma group_texts_run_hd:
  assumes "takeWhile p r \<noteq> []"
  shows "\<exists>gs. group_texts (Rep p (Suc 0) None) r = takeWhile p r # gs"
proof -
  let ?n = "length (takeWhile p r)"
  from assms have n: "0 < ?n" by simp
  have le: "?n \<le> length r" by (rule length_takeWhile_le)
  from assms have "Suc 0 \<le> ?n" by (cases "takeWhile p r") simp_all
  then have "rev [Suc 0..<Suc ?n] = ?n # rev [Suc 0..<?n]"
    by simp
  then have "group_texts (Rep p (Suc 0) None) r =
      take (length r - length (drop ?n r)) r # map (\<lambda>r'. take (length r - length r') r)
        (map (\<lambda>k. drop k r) (rev [Suc 0..<?n]))"
    by (simp add: group_texts_def Let_def del: upt_Suc)
  moreover have "take (length r - length (drop ?n r)) r = takeWhile p r"
    using le by (simp add: takeWhile_eq_take [symmetric])
  ultimately show ?thesis by simp
qed

lemma groups_at_label:
  "groups_at (Seq (Lit l) (Rep is_space 0 None)) grp s =
     (if take (length l) s = l
      then concat (map (group_texts grp) (rests (Rep is_space 0 None) (drop (length l) s)))
      else [])"
  by (simp add: groups_at_def)

text \<open>When the class contains the whitespace, as in \<open>[\w\s\-]\<close>.\<close>

lemma strip_space_Cons: "is_space c \<Longrightarrow> strip (c # s) = strip s"
  by (simp add: strip_def)

lemma run_with_space:
  assumes sub: "\<And>c. is_space c \<Longrightarrow> p c"
  shows "(takeWhile p s = [] \<longrightarrow>
            concat (map (group_texts (Rep p (Suc 0) None)) (rests (Rep is_space 0 None) s)) = [])
       \<and> (takeWhile p s \<noteq> [] \<longrightarrow>
            (\<exists>g gs. concat (map (group_texts (Rep p (Suc 0) None)) (rests (Rep is_space 0 None) s)) = g # gs
                   \<and> strip g = strip (takeWhile p s)))"
proof (induction s)
  case Nil
  show ?case by (simp add: group_texts_def Let_def)
next
  case (Cons c t)
  show ?case
  proof (cases "is_space c")
    case False
    then have r: "rests (Rep is_space 0 None) (c # t) = [c # t]"
      by (simp add: rests_space_no)
    show ?thesis
    proof (cases "takeWhile p (c # t) = []")
      case True
      then show ?thesis using r by (simp add: group_texts_run_Nil del: rests.simps)
    next
      case ne: False
      from group_texts_run_hd [OF ne] obtain gs
        where "group_texts (Rep p (Suc 0) None) (c # t) = takeWhile p (c # t) # gs" ..
      with ne r show ?thesis by (simp del: rests.simps)
    qed
  next
    case True
    then have pc: "p c" by (rule sub)
    have r: "rests (Rep is_space 0 None) (c # t) = rests (Rep is_space 0 None) t @ [c # t]"
      using True by (rule rests_space_Cons)
    have ne: "takeWhile p (c # t) \<noteq> []" using pc by simp
    from group_texts_run_hd [OF ne] obtain gs
      where g: "group_texts (Rep p (Suc 0) None) (c # t) = takeWhile p (c # t) # gs" ..
    show ?thesis
    proof (cases "takeWhile p t = []")
      case e: True
      with Cons.IH
      have "concat (map (group_texts (Rep p (Suc 0) None)) (rests (Rep is_space 0 None) t)) = []"
        by simp
      with r g have "concat (map (group_texts (Rep p (Suc 0) None)) (rests (Rep is_space 0 None) (c # t)))
                       = takeWhile p (c # t) # gs"
        by (simp del: rests.simps)
      with ne show ?thesis by (simp del: rests.simps)
    next
      case False
      with Cons.IH obtain g' gs'
        where c: "concat (map (group_texts (Rep p (Suc 0) None)) (rests (Rep is_space 0 None) t)) = g' # gs'"
          and s: "strip g' = strip (takeWhile p t)"
        by blast
      from r c have "concat (map (group_texts (Rep p (Suc 0) None)) (rests (Rep is_space 0 None) (c # t)))
                       = g' # (gs' @ group_texts (Rep p (Suc 0) None) (c # t))"
        by (simp del: rests.simps)
      moreover have "strip g' = strip (takeWhile p (c # t))"
        using s pc True by (simp add: strip_space_Cons)
      ultimately show ?thesis using ne by blast
    qed
  qed
qed

text \<open>When the class has no whitespace, as in \<open>[\d\.]\<close>.\<close>

lemma run_without_space:
  assumes dis: "\<And>c. is_space c \<Longrightarrow> \<not> p c"
  shows "concat (map (group_texts (Rep p (Suc 0) None)) (rests (Rep is_space 0 None) s))
           = group_texts (Rep p (Suc 0) None) (dropWhile is_space s)"
proof (induction s)
  case Nil
  show ?case by (simp add: Let_def)
next
  case (Cons c t)
  show ?case
  proof (cases "is_space c")
    case False
    then show ?thesis by (simp add: rests_space_no del: rests.simps)
  next
    case True
    then have "\<not> p c" by (rule dis)
    then have "group_texts (Rep p (Suc 0) None) (c # t) = []"
      by (simp add: group_texts_run_Nil)
    with True Cons.IH show ?thesis
      by (simp add: rests_space_Cons del: rests.simps)
  qed
qed

subsection \<open>The patterns of the program\<close>

lemma deal_class_space: "is_space c \<Longrightarrow> deal_class c"
  by (simp add: deal_class_def)

lemma groups_at_deal:
  "groups_at deal_pre deal_grp s =
     (if take 5 s = ''Deal:''
      then concat (map (group_texts (Rep deal_class (Suc 0) None))
                    (rests (Rep is_space 0 None) (drop 5 s)))
      else [])"
proof -
  have l: "length ''Deal:'' = 5" by simp
  show ?thesis
    unfolding deal_pre_def deal_grp_def
    using groups_at_label [of "''Deal:''" "Rep deal_class 1 None" s]
    by (simp only: l One_nat_def)
qed

lemma deal_groups_at:
  "(case groups_at deal_pre deal_grp s of [] \<Rightarrow> None | g # gs \<Rightarrow> Some (strip g)) =
     (if take 5 s = ''Deal:'' \<and> takeWhile deal_class (drop 5 s) \<noteq> []
      then Some (strip (takeWhile deal_class (drop 5 s))) else None)"
proof -
  note rw = run_with_space [of deal_class "drop 5 s", OF deal_class_space]
  show ?thesis
  proof (cases "take 5 s = ''Deal:''")
    case False
    then show ?thesis by (simp only: groups_at_deal if_False list.case simp_thms)
  next
    case True
    show ?thesis
    proof (cases "takeWhile deal_class (drop 5 s) = []")
      case e: True
      with rw have "groups_at deal_pre deal_grp s = []"
        by (simp only: groups_at_deal True if_True simp_thms)
      with e show ?thesis by simp
    next
      case ne: False
      with rw obtain g gs where
        "concat (map (group_texts (Rep deal_class (Suc 0) None)) (rests (Rep is_space 0 None) (drop 5 s))) = g # gs"
        "strip g = strip (takeWhile deal_class (drop 5 s))"
        by blast
      then have "groups_at deal_pre deal_grp s = g # gs"
        "strip g = strip (takeWhile deal_class (drop 5 s))"
        by (simp_all only: groups_at_deal True if_True simp_thms)
      with ne True show ?thesis by simp
    qed
  qed
qed

lemma deal_name_rule_search:
  "map_option strip (re_search deal_pre deal_grp s) = deal_name_rule s"
proof (induction s)
  case Nil
  show ?case using deal_groups_at [of "[]"] by (simp split: list.splits)
next
  case (Cons c cs)
  show ?case
    using deal_groups_at [of "c # cs"] Cons.IH
    by (auto split: list.splits if_splits)
qed

lemma numeral_class_space: "is_space c \<Longrightarrow> \<not> numeral_class c"
  by (auto simp: numeral_class_def is_space_def is_digit_def)

lemma groups_at_confidence:
  "groups_at confidence_pre confidence_grp s =
     (if take 11 s = ''Confidence:''
      then group_texts (Rep numeral_class (Suc 0) None) (dropWhile is_space (drop 11 s))
      else [])"
proof -
  have l: "length ''Confidence:'' = 11" by simp
  note rw = run_without_space [of numeral_class "drop 11 s", OF numeral_class_space]
  show ?thesis
    unfolding confidence_pre_def confidence_grp_def
    using groups_at_label [of "''Confidence:''" "Rep numeral_class 1 None" s]
    by (simp only: l One_nat_def rw)
qed

lemma confidence_groups_at:
  "(case groups_at confidence_pre confidence_grp s of [] \<Rightarrow> None | g # gs \<Rightarrow> Some g) =
     (if take 11 s = ''Confidence:''
         \<and> takeWhile numeral_class (dropWhile is_space (drop 11 s)) \<noteq> []
      then Some (takeWhile numeral_class (dropWhile is_space (drop 11 s))) else None)"
proof (cases "takeWhile numeral_class (dropWhile is_space (drop 11 s)) = []")
  case True
  then have "groups_at confidence_pre confidence_grp s = []"
    by (simp only: groups_at_confidence group_texts_run_Nil if_cancel)
  with True show ?thesis by simp
next
  case False
  from group_texts_run_hd [OF False] obtain gs where
    g: "group_texts (Rep numeral_class (Suc 0) None) (dropWhile is_space (drop 11 s)) =
       takeWhile numeral_class (dropWhile is_space (drop 11 s)) # gs" ..
  show ?thesis
  proof (cases "take 11 s = ''Confidence:''")
    case True
    with g have "groups_at confidence_pre confidence_grp s =
        takeWhile numeral_class (dropWhile is_space (drop 11 s)) # gs"
      by (simp only: groups_at_confidence if_True simp_thms)
    with False True show ?thesis by simp
  next
    case f: False
    then have "groups_at confidence_pre confidence_grp s = []"
      by (simp only: groups_at_confidence if_False)
    with f show ?thesis by simp
  qed
qed

lemma confidence_numeral_search:
  "re_search confidence_pre confidence_grp s = confidence_numeral s"
proof (induction s)
  case Nil
  show ?case using confidence_groups_at [of "[]"] by (simp split: list.splits)
next
  case (Cons c cs)
  show ?case
    using confidence_groups_at [of "c # cs"] Cons.IH
    by (auto split: list.splits if_splits)
qed

subsection \<open>Three clean lines\<close>

lemma strip_clean:
  assumes "s \<noteq> []" "\<not> is_space (hd s)" "\<not> is_space (last s)"
  shows "strip s = s"
proof -
  from assms have 1: "dropWhile is_space s = s" by (cases s) auto
  from assms have "rev s \<noteq> []" "\<not> is_space (hd (rev s))" by (simp_all add: hd_rev)
  then have 2: "dropWhile is_space (rev s) = rev s" by (cases "rev s") auto
  show ?thesis by (simp add: strip_def 1 2)
qed

lemma split_newline_line: "CHR 0x0A \<notin> set s \<Longrightarrow> split_newline s = [s]"
  by (induction s) auto

lemma split_newline_append:
  "CHR 0x0A \<notin> set a \<Longrightarrow> split_newline (a @ CHR 0x0A # rest) = a # split_newline rest"
  by (induction a) auto

lemma response_lines_three:
  assumes a: "clean_line a" and b: "clean_line b" and c: "clean_line c"
  shows "response_lines (three_lines a b c) = [a, b, c]"
proof -
  from a b c have sa: "strip a = a" and sb: "strip b = b" and sc: "strip c = c"
    by (simp_all add: clean_line_def strip_clean)
  from a b c have ne: "a \<noteq> []" "b \<noteq> []" "c \<noteq> []"
    by (simp_all add: clean_line_def)
  have "hd (three_lines a b c) = hd a" "last (three_lines a b c) = last c"
    using ne by (simp_all add: three_lines_def)
  with a c have st: "strip (three_lines a b c) = three_lines a b c"
    by (intro strip_clean) (simp_all add: clean_line_def three_lines_def)
  have "split_newline (three_lines a b c) = [a, b, c]"
    using a b c by (simp add: three_lines_def clean_line_def split_newline_append split_newline_line)
  with st sa sb sc ne show ?thesis
    by (simp add: response_lines_def)
qed

subsection \<open>Decimal numerals\<close>








subsection \<open>The three-line parser\<close>

lemma parse_three_lines:
  assumes "clean_line a" "clean_line b" "clean_line c"
  shows "parse_response_text (three_lines a b c) =
     \<lparr>primary_request = a,
      sub_request = (case map_of SUB_REQUEST_TYPES a of
                       None \<Rightarrow> None
                     | Some allowed \<Rightarrow> if b \<in> set allowed then Some b else None),
      confidence = (case confidence_numeral c of None \<Rightarrow> None | Some num \<Rightarrow> py_float num),
      details = ''DeepSeek R1 analysis confirms the classification.''\<rparr>"
proof -
  from assms(2) have "b \<noteq> []" by (simp add: clean_line_def)
  then show ?thesis
    by (simp add: parse_response_text_def response_lines_three [OF assms] Let_def
                  confidence_numeral_search)
qed

text \<open>
  C5.  The second line of the answer is the \<open>sub_request\<close> exactly when there is one,
  it is not empty, the \<open>primary_request\<close> is a key of \<open>SUB_REQUEST_TYPES\<close> and the line
  is in the list of that key; otherwise \<open>sub_request\<close> is \<open>None\<close>, and the parser returns
  all the same.  For an answer of three clean lines the first is the primary request
  and the second is kept exactly when the table lists it under the first.
  \<open>Fee Payment\<close> with \<open>Ongoing Fee\<close> keeps the sub-request, \<open>Fee Payment\<close> with
  \<open>Cashless Roll\<close> loses it, and \<open>Adjustment\<close> never has one.
\<close>

theorem sub_request_validated:
  "sub_request (parse_response_text txt) =
     (let ls = response_lines txt in
        if 1 < length ls \<and> ls ! 1 \<noteq> []
           \<and> (case map_of SUB_REQUEST_TYPES (primary_request (parse_response_text txt)) of
                 None \<Rightarrow> False
               | Some allowed \<Rightarrow> ls ! 1 \<in> set allowed)
        then Some (ls ! 1) else None)
   \<and> (clean_line a \<and> clean_line b \<and> clean_line c \<longrightarrow>
        primary_request (parse_response_text (three_lines a b c)) = a
        \<and> sub_request (parse_response_text (three_lines a b c)) =
            (case map_of SUB_REQUEST_TYPES a of
               None \<Rightarrow> None
             | Some allowed \<Rightarrow> if b \<in> set allowed then Some b else None))
   \<and> sub_request (parse_response_text (three_lines ''Fee Payment'' ''Ongoing Fee'' ''Confidence: 0.9''))
       = Some ''Ongoing Fee''
   \<and> sub_request (parse_response_text (three_lines ''Fee Payment'' ''Cashless Roll'' ''Confidence: 0.9''))
       = None
   \<and> (primary_request (parse_response_text txt) = ''Adjustment''
        \<longrightarrow> sub_request (parse_response_text txt) = None)"
proof -
  have 1: "sub_request (parse_response_text txt) =
     (let ls = response_lines txt in
        if 1 < length ls \<and> ls ! 1 \<noteq> []
           \<and> (case map_of SUB_REQUEST_TYPES (primary_request (parse_response_text txt)) of
                 None \<Rightarrow> False
               | Some allowed \<Rightarrow> ls ! 1 \<in> set allowed)
        then Some (ls ! 1) else None)"
    by (simp add: parse_response_text_def Let_def split: option.splits)
  have 2: "sub_request (parse_response_text (three_lines ''Fee Payment'' ''Ongoing Fee'' ''Confidence: 0.9''))
       = Some ''Ongoing Fee''"
    by code_simp
  have 3: "sub_request (parse_response_text (three_lines ''Fee Payment'' ''Cashless Roll'' ''Confidence: 0.9''))
       = None"
    by code_simp
  have 4: "primary_request (parse_response_text txt) = ''Adjustment''
        \<longrightarrow> sub_request (parse_response_text txt) = None"
    by (simp add: 1 Let_def SUB_REQUEST_TYPES_def)
  have 5: "clean_line a \<and> clean_line b \<and> clean_line c \<longrightarrow>
        primary_request (parse_response_text (three_lines a b c)) = a
        \<and> sub_request (parse_response_text (three_lines a b c)) =
            (case map_of SUB_REQUEST_TYPES a of
               None \<Rightarrow> None
             | Some allowed \<Rightarrow> if b \<in> set allowed then Some b else None)"
    by (simp add: parse_three_lines)
  from 1 2 3 4 5 show ?thesis by blast
qed

theorem sub_request_validated_witness:
  "clean_line ''Adjustment'' \<and> clean_line ''Increase'' \<and> clean_line ''Confidence: 0.5''
   \<and> primary_request (parse_response_text (three_lines ''Adjustment'' ''Increase'' ''Confidence: 0.5''))
     = ''Adjustment''
   \<and> sub_request (parse_response_text (three_lines ''Adjustment'' ''Increase'' ''Confidence: 0.5''))
     = None"
proof -
  have c: "clean_line ''Adjustment''" "clean_line ''Increase''" "clean_line ''Confidence: 0.5''"
    by code_simp+
  have m: "map_of SUB_REQUEST_TYPES ''Adjustment'' = None"
    by (simp add: SUB_REQUEST_TYPES_def)
  from sub_request_validated
         [of "three_lines ''Adjustment'' ''Increase'' ''Confidence: 0.5''"
             "''Adjustment''" "''Increase''" "''Confidence: 0.5''"]
       c m
  show ?thesis by simp
qed



subsection \<open>The deal name\<close>

text \<open>
  C9, as amended.  The \<open>deal_name\<close> is taken at the first \<open>Deal:\<close> (case-sensitive)
  that is followed by at least one word character (a letter, a digit or the
  underscore), whitespace or hyphen: it is the longest run of such characters after
  the label, stripped.  It is \<open>None\<close> when no \<open>Deal:\<close> is followed by such a character,
  so also when the label is absent.
\<close>

theorem deal_name_extraction:
  "field (extract_fields email_text) ''deal_name'' = deal_name_rule email_text
   \<and> (\<not> sublist ''Deal:'' email_text \<longrightarrow> field (extract_fields email_text) ''deal_name'' = None)"
proof -
  have "field (extract_fields email_text) ''deal_name''
          = map_option strip (re_search deal_pre deal_grp email_text)"
    by (simp add: extract_fields_def field_def Let_def)
  then have a: "field (extract_fields email_text) ''deal_name'' = deal_name_rule email_text"
    by (simp only: deal_name_rule_search)
  have b: "\<not> sublist ''Deal:'' email_text \<longrightarrow> field (extract_fields email_text) ''deal_name'' = None"
    using deal_name_None [of email_text] by blast
  from a b show ?thesis by (rule conjI)
qed

theorem deal_name_extraction_witness:
  "\<not> sublist ''Deal:'' ''deal: Falcon''
   \<and> field (extract_fields ''deal: Falcon'') ''deal_name'' = None
   \<and> field (extract_fields ''Deal:! Deal: a_b - c!'') ''deal_name'' = Some ''a_b - c''"
proof -
  have n: "\<not> sublist ''Deal:'' ''deal: Falcon''"
    by (simp add: sublist_Cons_right)
  have r: "deal_name_rule ''Deal:! Deal: a_b - c!'' = Some ''a_b - c''"
    by code_simp
  from deal_name_extraction [of "''deal: Falcon''"] n
       deal_name_extraction [of "''Deal:! Deal: a_b - c!''"] r
  show ?thesis by simp
qed

text \<open>
  The claim C9 as stated fails twice.  After \<open>Deal: a_b\<close> the specification's character
  set stops at the underscore and gives \<open>a\<close>, the program gives \<open>a_b\<close>.  In
  \<open>Deal:! Deal: B\<close> the text after the first label is empty, the program goes on to the
  second label and gives \<open>B\<close>.
\<close>

theorem deal_name_extraction_counterexample:
  "field (extract_fields ''Deal: a_b'') ''deal_name'' = Some ''a_b''
   \<and> deal_name_first_label ''Deal: a_b'' = Some ''a''
   \<and> field (extract_fields ''Deal:! Deal: B'') ''deal_name'' = Some ''B''
   \<and> deal_name_first_label ''Deal:! Deal: B'' = Some []"
proof -
  have 1: "field (extract_fields ''Deal: a_b'') ''deal_name'' = Some ''a_b''" by code_simp
  have 2: "deal_name_first_label ''Deal: a_b'' = Some ''a''" by code_simp
  have 3: "field (extract_fields ''Deal:! Deal: B'') ''deal_name'' = Some ''B''" by code_simp
  have 4: "deal_name_first_label ''Deal:! Deal: B'' = Some []" by code_simp
  from 1 2 3 4 show ?thesis by blast
qed

end
